theory Spec2Isabelle
  imports Main "HOL-Library.Word" "HOL-Library.AList"
begin

section \<open>JavaScript strings\<close>

text \<open>
  A JavaScript string is a sequence of UTF-16 code units. Literals of the source are
  written \<open>js ''...''\<close>.
\<close>

type_synonym js_string = "16 word list"

definition js :: "string \<Rightarrow> js_string" where
  "js s = map of_char s"

text \<open>
  The characters that \<open>String.prototype.trim\<close> strips and that the regular expression
  class \<open>\s\<close> matches: WhiteSpace and LineTerminator of ECMAScript.
\<close>

definition is_space :: "16 word \<Rightarrow> bool" where
  "is_space c \<longleftrightarrow>
     c \<in> set [0x9, 0xA, 0xB, 0xC, 0xD, 0x20, 0xA0, 0x1680,
              0x2028, 0x2029, 0x202F, 0x205F, 0x3000, 0xFEFF]
     \<or> (0x2000 \<le> c \<and> c \<le> 0x200A)"

definition trim :: "js_string \<Rightarrow> js_string" where
  "trim s = rev (dropWhile is_space (rev (dropWhile is_space s)))"

definition startsWith :: "js_string \<Rightarrow> js_string \<Rightarrow> bool" where
  "startsWith s p \<longleftrightarrow> take (length p) s = p"

definition endsWith :: "js_string \<Rightarrow> js_string \<Rightarrow> bool" where
  "endsWith s p \<longleftrightarrow> length p \<le> length s \<and> drop (length s - length p) s = p"

text \<open>
  \<open>s.match(/\S+/g)\<close>: the maximal runs of non-whitespace code units from left to right,
  or \<open>null\<close> when there is none.
\<close>

function nonspace_runs :: "js_string \<Rightarrow> js_string list" where
  "nonspace_runs s =
     (case dropWhile is_space s of
        [] \<Rightarrow> []
      | c # cs \<Rightarrow> (c # takeWhile (\<lambda>x. \<not> is_space x) cs)
                   # nonspace_runs (dropWhile (\<lambda>x. \<not> is_space x) cs))"
  by pat_completeness auto
termination
proof (relation "measure length")
  show "wf (measure length)" by simp
next
  fix s :: js_string and c cs
  assume d: "dropWhile is_space s = c # cs"
  have "length (dropWhile (\<lambda>x. \<not> is_space x) cs) \<le> length cs"
    by (rule length_dropWhile_le)
  moreover have "length (c # cs) \<le> length s"
    using length_dropWhile_le [of is_space s] d by simp
  ultimately show "(dropWhile (\<lambda>x. \<not> is_space x) cs, s) \<in> measure length"
    by simp
qed

definition match_nonspace :: "js_string \<Rightarrow> js_string list option" where
  "match_nonspace s = (case nonspace_runs s of [] \<Rightarrow> None | t # ts \<Rightarrow> Some (t # ts))"

text \<open>
  The spec's words for the same thing, "whitespace-delimited tokens": cut the text at
  every whitespace character and keep the pieces that are not empty.
\<close>

fun pieces :: "js_string \<Rightarrow> js_string list" where
  "pieces [] = [[]]"
| "pieces (c # cs) =
     (if is_space c then [] # pieces cs
      else (case pieces cs of [] \<Rightarrow> [[c]] | p # ps \<Rightarrow> (c # p) # ps))"

definition whitespace_tokens :: "js_string \<Rightarrow> js_string list" where
  "whitespace_tokens s = filter (\<lambda>p. p \<noteq> []) (pieces s)"

section \<open>Errors and outcomes\<close>

text \<open>
  The errors the plugin manager raises itself, one constructor per \<open>throw new Error\<close>
  of the source with the value interpolated into its message, and \<open>Foreign\<close> for an
  error raised by code the manager calls: a plugin's hooks and handlers, a constructor,
  the dynamic import, the file system.
\<close>

datatype error =
    PluginNotFound js_string
  | SystemPluginCannotBeUnloaded js_string
  | InvalidPluginFile js_string
  | PluginFileHasNoExport js_string
  | PluginMustExtendBasePlugin js_string
  | DuplicatePluginName js_string
  | Foreign js_string

text \<open>An awaited call either rejects or resolves.\<close>

datatype 'a outcome = Threw error | Returned 'a

section \<open>The plugin base class and the routing of one event\<close>

datatype PluginScope = scope_new_message | scope_edit_message | scope_both

record MessageContext =
  msg_text :: "js_string option"
  isOutgoing :: bool

text \<open>
  A plugin instance: the four abstract fields, the two lifecycle hooks and the two
  abstract handlers. A hook or handler is described by what awaiting it does: it
  resolves (\<open>None\<close>) or rejects with a message. The fields are read as the instance
  has them after construction, and a hook or handler is taken not to call back into the
  manager or the dispatcher.
\<close>

record BasePlugin =
  command :: "js_string option"
  name :: js_string
  description :: js_string
  scope :: PluginScope
  onLoad :: "js_string option"
  onUnload :: "js_string option"
  handlerCommand :: "MessageContext \<Rightarrow> js_string \<Rightarrow> js_string list \<Rightarrow> js_string option"
  handleMessage :: "MessageContext \<Rightarrow> js_string option"

text \<open>The calls that reach a plugin's handlers, with their arguments, in order.\<close>

datatype call =
    HandlerCommand MessageContext js_string "js_string list"
  | HandleMessage MessageContext

datatype PropagationAction = Continue | Stop | StopChildren

definition awaited :: "js_string option \<Rightarrow> unit outcome" where
  "awaited r = (case r of None \<Rightarrow> Returned () | Some e \<Rightarrow> Threw (Foreign e))"

text \<open>\<open>message.text?.trim() ?? ''\<close>\<close>

definition trimmed_text :: "MessageContext \<Rightarrow> js_string" where
  "trimmed_text m = (case msg_text m of None \<Rightarrow> [] | Some t \<Rightarrow> trim t)"

text \<open>\<open>prefix + this.command\<close>: string concatenation turns \<open>null\<close> into its name.\<close>

definition plus_command :: "js_string \<Rightarrow> js_string option \<Rightarrow> js_string" where
  "plus_command pre c = pre @ (case c of None \<Rightarrow> js ''null'' | Some k \<Rightarrow> k)"

definition doHandlerMessage ::
  "js_string list \<Rightarrow> BasePlugin \<Rightarrow> MessageContext \<Rightarrow> call list \<times> unit outcome" where
  "doHandlerMessage COMMAND_PREFIXES p m =
     (let text = trimmed_text m;
          isCommand = list_ex (\<lambda>pre. startsWith text (plus_command pre (command p)))
                        COMMAND_PREFIXES
      in if \<not> isCommand \<and> \<not> isOutgoing m
         then ([HandleMessage m], awaited (handleMessage p m))
         else ([], Returned ()))"

definition doHandlerCommand :: "BasePlugin \<Rightarrow> MessageContext \<Rightarrow> call list \<times> unit outcome" where
  "doHandlerCommand p m =
     (let text = trimmed_text m;
          tokens = (case match_nonspace text of None \<Rightarrow> [] | Some ts \<Rightarrow> ts);
          subCommand = (case tokens of _ # s # _ \<Rightarrow> Some s | _ \<Rightarrow> None);
          args = drop 2 tokens
      in if isOutgoing m
         then (let sub = (case subCommand of None \<Rightarrow> [] | Some s \<Rightarrow> s)
               in ([HandlerCommand m sub args], awaited (handlerCommand p m sub args)))
         else ([], Returned ()))"

definition invokeHandlerMessage ::
  "js_string list \<Rightarrow> BasePlugin \<Rightarrow> MessageContext \<Rightarrow> call list \<times> PropagationAction outcome" where
  "invokeHandlerMessage COMMAND_PREFIXES plugin m =
     (case doHandlerMessage COMMAND_PREFIXES plugin m of
        (calls, Threw e) \<Rightarrow> (calls, Threw e)
      | (calls, Returned _) \<Rightarrow> (calls, Returned Continue))"

definition invokeHandlerCommand ::
  "BasePlugin \<Rightarrow> MessageContext \<Rightarrow> call list \<times> PropagationAction outcome" where
  "invokeHandlerCommand plugin m =
     (case doHandlerCommand plugin m of
        (calls, Threw e) \<Rightarrow> (calls, Threw e)
      | (calls, Returned _) \<Rightarrow> (calls, Returned Continue))"

section \<open>The plugin manager\<close>

subsection \<open>Data\<close>

datatype update_name = new_message | edit_message

text \<open>
  The two closures that \<open>registerHandlers\<close> builds over the instance, and the one
  filter it builds, \<open>filters.command(instance.command, {prefixes: env.COMMAND_PREFIXES})\<close>.
\<close>

datatype callback = commandHandler BasePlugin | messageHandler BasePlugin

datatype update_filter = filters_command js_string "js_string list"

text \<open>
  An \<open>UpdateHandler\<close> object. The dispatcher finds a handler by object identity, so
  every object carries the number it was allocated under.
\<close>

record UpdateHandler =
  oid :: nat
  h_name :: update_name
  callback :: callback
  check :: "update_filter option"

record handler_entry =
  handler :: UpdateHandler
  group :: "nat option"

datatype PluginKind = system | user

record PluginRecord =
  r_name :: js_string
  filePath :: js_string
  kind :: PluginKind
  handlerIds :: "handler_entry list"
  inst :: BasePlugin

record LoadOptions =
  forceReload :: "bool option"

text \<open>
  What a module exports under a name: nothing, \<open>null\<close>, another falsy value, or a
  truthy value, described by what \<open>new\<close> applied to it and the context does: it throws
  (as for a value that is no constructor), or it returns an object that is or is not a
  \<open>BasePlugin\<close>.
\<close>

datatype constructed = ctor_throws js_string | not_a_plugin | plugin_instance BasePlugin

datatype js_value = js_undefined | js_null | js_falsy | js_unit constructed

record module =
  default_export :: js_value
  Plugin_export :: js_value

record Dirent =
  d_name :: js_string
  isFile :: bool

text \<open>
  What the manager reads from outside: the configured prefixes, the dynamic import (of a
  file path, with or without the cache-busting query), the functions of \<open>node:path\<close>
  and the answers of \<open>node:fs\<close>. A rejection is \<open>Inl\<close> or \<open>Some\<close> of its message.
\<close>

record world =
  COMMAND_PREFIXES :: "js_string list"
  import_module :: "js_string \<Rightarrow> bool \<Rightarrow> js_string + module"
  path_join :: "js_string \<Rightarrow> js_string \<Rightarrow> js_string"
  path_basename :: "js_string \<Rightarrow> js_string"
  fs_access :: "js_string \<Rightarrow> bool"
  fs_readdir :: "js_string \<Rightarrow> js_string + Dirent list"
  fs_mkdir :: "js_string \<Rightarrow> js_string option"
  fs_copyFile :: "js_string \<Rightarrow> js_string \<Rightarrow> js_string option"

text \<open>The calls that change or evaluate files, in the order they are issued.\<close>

datatype io_call =
    Import js_string bool
  | Mkdir js_string
  | CopyFile js_string js_string

text \<open>
  The manager's fields, the dispatcher of its context (the handlers registered in the
  default group, in order), the allocation counter of handler objects and the calls
  issued so far. The two \<open>Map\<close>s are association lists in insertion order: \<open>set\<close> is
  \<open>AList.update\<close>, \<open>delete\<close> is \<open>AList.delete\<close>, \<open>get\<close> and \<open>has\<close> are \<open>map_of\<close>.
\<close>

record PluginManager =
  plugins :: "(js_string \<times> PluginRecord) list"
  pluginsByFile :: "(js_string \<times> PluginRecord) list"
  systemPluginDir :: js_string
  userPluginDir :: js_string
  dispatcher :: "UpdateHandler list"
  next_oid :: nat
  io_calls :: "io_call list"

subsection \<open>The dispatcher\<close>

text \<open>
  Modelled from the spec: the Event Subscription Port, which the source takes from the
  dispatcher library and which is not part of the repository. \<open>subscribe\<close> appends the
  handler to the default group; \<open>unsubscribe\<close> removes that very object from the group
  named (the default one when none is named) and does nothing when it is not there.
\<close>

definition addUpdateHandler :: "UpdateHandler \<Rightarrow> UpdateHandler list \<Rightarrow> UpdateHandler list" where
  "addUpdateHandler h d = d @ [h]"

fun remove_object :: "nat \<Rightarrow> UpdateHandler list \<Rightarrow> UpdateHandler list" where
  "remove_object i [] = []"
| "remove_object i (h # hs) = (if oid h = i then hs else h # remove_object i hs)"

definition removeUpdateHandler ::
  "UpdateHandler \<Rightarrow> nat option \<Rightarrow> UpdateHandler list \<Rightarrow> UpdateHandler list" where
  "removeUpdateHandler h g d =
     (if (case g of None \<Rightarrow> 0 | Some n \<Rightarrow> n) = 0 then remove_object (oid h) d else d)"

subsection \<open>Operations\<close>

definition isPluginFile :: "js_string \<Rightarrow> bool" where
  "isPluginFile fileName =
     (if endsWith fileName (js ''.d.ts'') then False
      else endsWith fileName (js ''.ts'') \<or> endsWith fileName (js ''.js'')
           \<or> endsWith fileName (js ''.mjs''))"

definition list_plugins :: "PluginManager \<Rightarrow> PluginRecord list" where
  "list_plugins s = map snd (plugins s)"

text \<open>
  One block of \<open>registerHandlers\<close>: a new handler object, \<open>addUpdateHandler\<close>, and the
  push onto \<open>handlerIds\<close>. In \<open>registerHandlers\<close> the test \<open>if (instance.command)\<close> fails
  for \<open>null\<close> and for the empty string.
\<close>

definition subscribe ::
  "update_name \<Rightarrow> callback \<Rightarrow> update_filter option
   \<Rightarrow> handler_entry list \<times> PluginManager \<Rightarrow> handler_entry list \<times> PluginManager" where
  "subscribe n cb flt acc =
     (case acc of (ids, s) \<Rightarrow>
        (let h = \<lparr>oid = next_oid s, h_name = n, callback = cb, check = flt\<rparr>
         in (ids @ [\<lparr>handler = h, group = None\<rparr>],
             s\<lparr>dispatcher := addUpdateHandler h (dispatcher s), next_oid := Suc (next_oid s)\<rparr>)))"

definition registerHandlers ::
  "world \<Rightarrow> BasePlugin \<Rightarrow> PluginManager \<Rightarrow> handler_entry list \<times> PluginManager" where
  "registerHandlers w p s =
     (let a0 = ([], s);
          a1 = (case command p of
                  None \<Rightarrow> a0
                | Some c \<Rightarrow>
                    if c = [] then a0
                    else subscribe new_message (commandHandler p)
                           (Some (filters_command c (COMMAND_PREFIXES w))) a0);
          a2 = (if scope p = scope_new_message \<or> scope p = scope_both
                then subscribe new_message (messageHandler p) None a1 else a1);
          a3 = (if scope p = scope_edit_message \<or> scope p = scope_both
                then subscribe edit_message (messageHandler p) None a2 else a2)
      in a3)"

definition unregisterHandlers :: "handler_entry list \<Rightarrow> PluginManager \<Rightarrow> PluginManager" where
  "unregisterHandlers ids s =
     fold (\<lambda>entry s'. s'\<lparr>dispatcher :=
                          removeUpdateHandler (handler entry) (group entry) (dispatcher s')\<rparr>)
       ids s"

text \<open>\<open>mod.default ?? mod.Plugin\<close>\<close>

definition nullish_or :: "js_value \<Rightarrow> js_value \<Rightarrow> js_value" where
  "nullish_or a b = (case a of js_undefined \<Rightarrow> b | js_null \<Rightarrow> b | _ \<Rightarrow> a)"

definition loadFromFile ::
  "world \<Rightarrow> js_string \<Rightarrow> LoadOptions \<Rightarrow> PluginKind \<Rightarrow> PluginManager
   \<Rightarrow> unit outcome \<times> PluginManager" where
  "loadFromFile w path options knd s =
     (let force = (forceReload options = Some True);
          s0 = s\<lparr>io_calls := io_calls s @ [Import path force]\<rparr>
      in case import_module w path force of
           Inl e \<Rightarrow> (Threw (Foreign e), s0)
         | Inr mdl \<Rightarrow>
             (case nullish_or (default_export mdl) (Plugin_export mdl) of
                js_unit (ctor_throws e) \<Rightarrow> (Threw (Foreign e), s0)
              | js_unit not_a_plugin \<Rightarrow> (Threw (PluginMustExtendBasePlugin path), s0)
              | js_unit (plugin_instance p) \<Rightarrow>
                  if map_of (plugins s0) (name p) \<noteq> None
                  then (Threw (DuplicatePluginName (name p)), s0)
                  else (case registerHandlers w p s0 of (ids, s1) \<Rightarrow>
                          (case onLoad p of
                             Some e \<Rightarrow> (Threw (Foreign e), unregisterHandlers ids s1)
                           | None \<Rightarrow>
                               (let record = \<lparr>r_name = name p, filePath = path, kind = knd,
                                              handlerIds = ids, inst = p\<rparr>
                                in (Returned (),
                                    s1\<lparr>plugins := AList.update (name p) record (plugins s1),
                                       pluginsByFile :=
                                         AList.update path record (pluginsByFile s1)\<rparr>))))
              | _ \<Rightarrow> (Threw (PluginFileHasNoExport path), s0)))"

fun scan_entries ::
  "world \<Rightarrow> js_string \<Rightarrow> PluginKind \<Rightarrow> LoadOptions \<Rightarrow> Dirent list \<Rightarrow> PluginManager
   \<Rightarrow> unit outcome \<times> PluginManager" where
  "scan_entries w pluginDir knd options [] s = (Returned (), s)"
| "scan_entries w pluginDir knd options (entry # entries) s =
     (if \<not> isFile entry then scan_entries w pluginDir knd options entries s
      else if \<not> isPluginFile (d_name entry) then scan_entries w pluginDir knd options entries s
      else (let path = path_join w pluginDir (d_name entry)
            in if map_of (pluginsByFile s) path \<noteq> None
               then scan_entries w pluginDir knd options entries s
               else (case loadFromFile w path options knd s of
                       (Threw e, s') \<Rightarrow> (Threw e, s')
                     | (Returned _, s') \<Rightarrow> scan_entries w pluginDir knd options entries s')))"

definition loadDir ::
  "world \<Rightarrow> js_string \<Rightarrow> PluginKind \<Rightarrow> LoadOptions \<Rightarrow> PluginManager
   \<Rightarrow> unit outcome \<times> PluginManager" where
  "loadDir w pluginDir knd options s =
     (if \<not> fs_access w pluginDir then (Returned (), s)
      else (case fs_readdir w pluginDir of
              Inl e \<Rightarrow> (Threw (Foreign e), s)
            | Inr entries \<Rightarrow> scan_entries w pluginDir knd options entries s))"

definition unloadUser :: "js_string \<Rightarrow> PluginManager \<Rightarrow> unit outcome \<times> PluginManager" where
  "unloadUser n s =
     (case map_of (plugins s) n of
        None \<Rightarrow> (Threw (PluginNotFound n), s)
      | Some record \<Rightarrow>
          if kind record \<noteq> user then (Threw (SystemPluginCannotBeUnloaded n), s)
          else (let s1 = unregisterHandlers (handlerIds record) s
                in case onUnload (inst record) of
                     Some e \<Rightarrow> (Threw (Foreign e), s1)
                   | None \<Rightarrow>
                       (Returned (),
                        s1\<lparr>plugins := AList.delete (r_name record) (plugins s1),
                           pluginsByFile :=
                             AList.delete (filePath record) (pluginsByFile s1)\<rparr>)))"

definition installUserPluginFromFile ::
  "world \<Rightarrow> js_string \<Rightarrow> PluginManager \<Rightarrow> js_string outcome \<times> PluginManager" where
  "installUserPluginFromFile w sourcePath s =
     (let s0 = s\<lparr>io_calls := io_calls s @ [Mkdir (userPluginDir s)]\<rparr>
      in case fs_mkdir w (userPluginDir s) of
           Some e \<Rightarrow> (Threw (Foreign e), s0)
         | None \<Rightarrow>
             (let fileName = path_basename w sourcePath
              in if \<not> isPluginFile fileName then (Threw (InvalidPluginFile fileName), s0)
                 else (let targetPath = path_join w (userPluginDir s) fileName;
                           s1 = s0\<lparr>io_calls := io_calls s0 @ [CopyFile sourcePath targetPath]\<rparr>
                       in case fs_copyFile w sourcePath targetPath of
                            Some e \<Rightarrow> (Threw (Foreign e), s1)
                          | None \<Rightarrow>
                              (case loadFromFile w targetPath \<lparr>forceReload = Some False\<rparr> user s1 of
                                 (Threw e, s2) \<Rightarrow> (Threw e, s2)
                               | (Returned _, s2) \<Rightarrow> (Returned targetPath, s2)))))"

subsection \<open>Invariants of the manager\<close>

text \<open>Every registered handler object was allocated before the next one will be.\<close>

definition fresh_objects :: "PluginManager \<Rightarrow> bool" where
  "fresh_objects s \<longleftrightarrow> (\<forall>h \<in> set (dispatcher s). oid h < next_oid s)"

text \<open>What every block of \<open>registerHandlers\<close> keeps true of the handlers pushed so far.\<close>

definition registered_from :: "PluginManager \<Rightarrow> handler_entry list \<times> PluginManager \<Rightarrow> bool" where
  "registered_from s acc \<longleftrightarrow>
     (case acc of (ids, s') \<Rightarrow>
        dispatcher s' = dispatcher s @ map handler ids
        \<and> next_oid s' = next_oid s + length ids
        \<and> map (\<lambda>e. oid (handler e)) ids = [next_oid s ..< next_oid s + length ids]
        \<and> (\<forall>e \<in> set ids. group e = None)
        \<and> plugins s' = plugins s \<and> pluginsByFile s' = pluginsByFile s
        \<and> io_calls s' = io_calls s \<and> userPluginDir s' = userPluginDir s
        \<and> systemPluginDir s' = systemPluginDir s)"

text \<open>The two indices hold the same records: each under its own name and its own path,
  no key twice.\<close>

definition indices_agree :: "PluginManager \<Rightarrow> bool" where
  "indices_agree s \<longleftrightarrow>
     distinct (map fst (plugins s)) \<and> distinct (map fst (pluginsByFile s))
     \<and> (\<forall>(n, r) \<in> set (plugins s).
           r_name r = n \<and> map_of (pluginsByFile s) (filePath r) = Some r)
     \<and> (\<forall>(f, r) \<in> set (pluginsByFile s).
           filePath r = f \<and> map_of (plugins s) (r_name r) = Some r)"

text \<open>The plugin instance a file yields: the default export, or the export named
  \<open>Plugin\<close> when there is no default one, constructed.\<close>

definition plugin_of_file :: "world \<Rightarrow> js_string \<Rightarrow> LoadOptions \<Rightarrow> BasePlugin option" where
  "plugin_of_file w path options =
     (case import_module w path (forceReload options = Some True) of
        Inl e \<Rightarrow> None
      | Inr mdl \<Rightarrow>
          (case (if default_export mdl = js_undefined \<or> default_export mdl = js_null
                 then Plugin_export mdl else default_export mdl) of
             js_unit (plugin_instance p) \<Rightarrow> Some p
           | _ \<Rightarrow> None))"

section \<open>Concrete plugins, messages and managers\<close>

text \<open>The inputs at which the theorems below are instantiated.\<close>

definition message_from :: "bool \<Rightarrow> string \<Rightarrow> MessageContext" where
  "message_from outgoing t = \<lparr>msg_text = Some (js t), isOutgoing = outgoing\<rparr>"

definition quiet_plugin :: "string option \<Rightarrow> string \<Rightarrow> BasePlugin" where
  "quiet_plugin c n =
     \<lparr>command = map_option js c, name = js n, description = [], scope = scope_both,
      onLoad = None, onUnload = None,
      handlerCommand = (\<lambda>m sub args. None), handleMessage = (\<lambda>m. None)\<rparr>"

definition crashing_plugin :: BasePlugin where
  "crashing_plugin =
     \<lparr>command = Some (js ''ping''), name = js ''ping'', description = [], scope = scope_both,
      onLoad = None, onUnload = None,
      handlerCommand = (\<lambda>m sub args. Some (js ''boom'')),
      handleMessage = (\<lambda>m. Some (js ''boom''))\<rparr>"

definition hooked_plugin :: "string \<Rightarrow> string option \<Rightarrow> string option \<Rightarrow> BasePlugin" where
  "hooked_plugin n l u =
     (quiet_plugin (Some n) n)\<lparr>onLoad := map_option js l, onUnload := map_option js u\<rparr>"

definition exports_default :: "BasePlugin \<Rightarrow> module" where
  "exports_default p =
     \<lparr>default_export = js_unit (plugin_instance p), Plugin_export = js_undefined\<rparr>"

definition example_modules :: "(js_string \<times> module) list" where
  "example_modules =
     [(js ''/p/user/ping.ts'', exports_default (quiet_plugin (Some ''ping'') ''ping'')),
      (js ''/p/user/ping2.ts'', exports_default (quiet_plugin (Some ''pong'') ''ping'')),
      (js ''/p/user/failing.ts'', exports_default (hooked_plugin ''failing'' (Some ''onLoad failed'') None)),
      (js ''/p/user/stubborn.ts'', exports_default (hooked_plugin ''stubborn'' None (Some ''onUnload failed''))),
      (js ''/p/user/named.ts'',
         \<lparr>default_export = js_undefined,
          Plugin_export = js_unit (plugin_instance (quiet_plugin (Some ''named'') ''named''))\<rparr>),
      (js ''/p/user/zero.ts'', \<lparr>default_export = js_falsy, Plugin_export = js_undefined\<rparr>)]"

definition slash :: "16 word" where
  "slash = 0x2F"

definition example_world :: world where
  "example_world =
     \<lparr>COMMAND_PREFIXES = [js ''/''],
      import_module = (\<lambda>path force. case map_of example_modules path of
                         None \<Rightarrow> Inl (js ''ERR_MODULE_NOT_FOUND'') | Some m \<Rightarrow> Inr m),
      path_join = (\<lambda>dir n. dir @ [slash] @ n),
      path_basename = (\<lambda>path. rev (takeWhile (\<lambda>c. c \<noteq> slash) (dropWhile (\<lambda>c. c = slash) (rev path)))),
      fs_access = (\<lambda>dir. dir = js ''/p/user''),
      fs_readdir = (\<lambda>dir. if dir = js ''/p/user''
                      then Inr [\<lparr>d_name = js ''ping.ts'', isFile = True\<rparr>,
                                \<lparr>d_name = js ''types.d.ts'', isFile = True\<rparr>,
                                \<lparr>d_name = js ''lib'', isFile = False\<rparr>,
                                \<lparr>d_name = js ''stubborn.ts'', isFile = True\<rparr>]
                      else Inl (js ''ENOTDIR'')),
      fs_mkdir = (\<lambda>dir. None),
      fs_copyFile = (\<lambda>src dst. None)\<rparr>"

definition empty_manager :: PluginManager where
  "empty_manager =
     \<lparr>plugins = [], pluginsByFile = [], systemPluginDir = js ''/p/system'',
      userPluginDir = js ''/p/user'', dispatcher = [], next_oid = 0, io_calls = []\<rparr>"

definition no_options :: LoadOptions where
  "no_options = \<lparr>forceReload = None\<rparr>"

definition ping_loaded :: PluginManager where
  "ping_loaded = snd (loadFromFile example_world (js ''/p/user/ping.ts'') no_options user empty_manager)"

definition stubborn_loaded :: PluginManager where
  "stubborn_loaded =
     snd (loadFromFile example_world (js ''/p/user/stubborn.ts'') no_options user ping_loaded)"


definition scanned :: PluginManager where
  "scanned = snd (loadDir example_world (js ''/p/user'') user no_options empty_manager)"

definition unwritable_world :: world where
  "unwritable_world = example_world\<lparr>fs_mkdir := (\<lambda>dir. Some (js ''EEXIST''))\<rparr>"

definition replaced_world :: world where
  "replaced_world =
     example_world
       \<lparr>import_module :=
          (\<lambda>path force. if force then Inr (exports_default (quiet_plugin (Some ''ping'') ''ping''))
                         else Inr (exports_default (quiet_plugin (Some ''pong'') ''pong''))),
        fs_readdir := (\<lambda>dir. Inr [\<lparr>d_name = js ''ping.ts'', isFile = True\<rparr>])\<rparr>"

definition forced_scan :: PluginManager where
  "forced_scan =
     snd (loadDir replaced_world (js ''/p/user'') user \<lparr>forceReload = Some True\<rparr> empty_manager)"

definition reinstalled :: PluginManager where
  "reinstalled = snd (installUserPluginFromFile replaced_world (js ''/tmp/ping.ts'') forced_scan)"

section \<open>Tokens\<close>

declare nonspace_runs.simps [simp del]

lemma nonspace_runs_Nil: "nonspace_runs [] = []"
  by (simp add: nonspace_runs.simps)

lemma nonspace_runs_space: "is_space c \<Longrightarrow> nonspace_runs (c # cs) = nonspace_runs cs"
  using nonspace_runs.simps [of "c # cs"] nonspace_runs.simps [of cs] by simp

lemma nonspace_runs_nonspace:
  "\<not> is_space c \<Longrightarrow>
   nonspace_runs (c # cs) =
     (c # takeWhile (\<lambda>x. \<not> is_space x) cs) # nonspace_runs (dropWhile (\<lambda>x. \<not> is_space x) cs)"
  using nonspace_runs.simps [of "c # cs"] by simp

lemma nonspace_runs_dropWhile: "nonspace_runs (dropWhile is_space s) = nonspace_runs s"
  using nonspace_runs.simps [of "dropWhile is_space s"] nonspace_runs.simps [of s]
  by simp

lemma filter_case_list:
  "filter P (case d of [] \<Rightarrow> [] | w # r \<Rightarrow> f r) = (case d of [] \<Rightarrow> [] | w # r \<Rightarrow> filter P (f r))"
  by (cases d) simp_all

lemma pieces_nonempty: "pieces s \<noteq> []"
  by (induction s) (auto split: list.splits)

lemma pieces_unfold:
  "pieces s = takeWhile (\<lambda>x. \<not> is_space x) s
              # (case dropWhile (\<lambda>x. \<not> is_space x) s of [] \<Rightarrow> [] | w # r \<Rightarrow> pieces r)"
  by (induction s) (auto split: list.splits)

lemma whitespace_tokens_Nil: "whitespace_tokens [] = []"
  by (simp add: whitespace_tokens_def)

lemma whitespace_tokens_space: "is_space c \<Longrightarrow> whitespace_tokens (c # cs) = whitespace_tokens cs"
  by (simp add: whitespace_tokens_def)

lemma whitespace_tokens_nonspace:
  assumes "\<not> is_space c"
  shows "whitespace_tokens (c # cs) =
     (c # takeWhile (\<lambda>x. \<not> is_space x) cs)
     # (case dropWhile (\<lambda>x. \<not> is_space x) cs of [] \<Rightarrow> [] | w # r \<Rightarrow> whitespace_tokens r)"
proof -
  have "pieces (c # cs) = (c # takeWhile (\<lambda>x. \<not> is_space x) cs)
      # (case dropWhile (\<lambda>x. \<not> is_space x) cs of [] \<Rightarrow> [] | w # r \<Rightarrow> pieces r)"
    using pieces_unfold [of "c # cs"] assms by simp
  then have "whitespace_tokens (c # cs) = (c # takeWhile (\<lambda>x. \<not> is_space x) cs)
      # filter (\<lambda>p. p \<noteq> [])
          (case dropWhile (\<lambda>x. \<not> is_space x) cs of [] \<Rightarrow> [] | w # r \<Rightarrow> pieces r)"
    unfolding whitespace_tokens_def by simp
  also have "filter (\<lambda>p. p \<noteq> [])
          (case dropWhile (\<lambda>x. \<not> is_space x) cs of [] \<Rightarrow> [] | w # r \<Rightarrow> pieces r)
      = (case dropWhile (\<lambda>x. \<not> is_space x) cs of [] \<Rightarrow> [] | w # r \<Rightarrow> whitespace_tokens r)"
    unfolding whitespace_tokens_def by (rule filter_case_list)
  finally show ?thesis .
qed

lemma nonspace_runs_tokens: "nonspace_runs s = whitespace_tokens s"
proof (induction s rule: length_induct)
  case (1 s)
  show ?case
  proof (cases s)
    case Nil
    then show ?thesis by (simp add: nonspace_runs_Nil whitespace_tokens_Nil)
  next
    case (Cons c cs)
    show ?thesis
    proof (cases "is_space c")
      case True
      with Cons 1 show ?thesis
        by (simp add: nonspace_runs_space whitespace_tokens_space)
    next
      case False
      show ?thesis
      proof (cases "dropWhile (\<lambda>x. \<not> is_space x) cs")
        case Nil
        have "nonspace_runs s = [c # takeWhile (\<lambda>x. \<not> is_space x) cs]"
          unfolding \<open>s = c # cs\<close> nonspace_runs_nonspace [OF False] Nil nonspace_runs_Nil ..
        moreover have "whitespace_tokens s = [c # takeWhile (\<lambda>x. \<not> is_space x) cs]"
          unfolding \<open>s = c # cs\<close> whitespace_tokens_nonspace [OF False] Nil by simp
        ultimately show ?thesis by simp
      next
        case (Cons w r)
        have sp: "is_space w"
          using hd_dropWhile [of "\<lambda>x. \<not> is_space x" cs] Cons by simp
        have "length r < length s"
          using length_dropWhile_le [of "\<lambda>x. \<not> is_space x" cs] Cons \<open>s = c # cs\<close> by simp
        with 1 have ih: "nonspace_runs r = whitespace_tokens r" by blast
        have "nonspace_runs s = (c # takeWhile (\<lambda>x. \<not> is_space x) cs) # nonspace_runs r"
          unfolding \<open>s = c # cs\<close> nonspace_runs_nonspace [OF False] Cons
            nonspace_runs_space [OF sp] ..
        moreover have "whitespace_tokens s
            = (c # takeWhile (\<lambda>x. \<not> is_space x) cs) # whitespace_tokens r"
          unfolding \<open>s = c # cs\<close> whitespace_tokens_nonspace [OF False] Cons by simp
        ultimately show ?thesis using ih by simp
      qed
    qed
  qed
qed

lemma pieces_snoc_space: "is_space w \<Longrightarrow> pieces (s @ [w]) = pieces s @ [[]]"
  using pieces_nonempty by (induction s) (auto split: list.splits)

lemma whitespace_tokens_append_spaces:
  "\<forall>w \<in> set ws. is_space w \<Longrightarrow> whitespace_tokens (s @ ws) = whitespace_tokens s"
proof (induction ws arbitrary: s)
  case Nil
  then show ?case by simp
next
  case (Cons w ws)
  have "whitespace_tokens ((s @ [w]) @ ws) = whitespace_tokens (s @ [w])"
    using Cons.IH [of "s @ [w]"] Cons.prems by simp
  moreover have "whitespace_tokens (s @ [w]) = whitespace_tokens s"
    using Cons.prems by (simp add: whitespace_tokens_def pieces_snoc_space)
  ultimately show ?case by simp
qed

lemma whitespace_tokens_trim_end:
  "whitespace_tokens (rev (dropWhile is_space (rev s))) = whitespace_tokens s"
proof -
  have "s = rev (dropWhile is_space (rev s)) @ rev (takeWhile is_space (rev s))"
    by (metis rev_append rev_rev_ident takeWhile_dropWhile_id)
  moreover have "\<forall>w \<in> set (rev (takeWhile is_space (rev s))). is_space w"
    by (auto dest: set_takeWhileD)
  ultimately show ?thesis
    using whitespace_tokens_append_spaces by metis
qed

lemma nonspace_runs_trim: "nonspace_runs (trim s) = whitespace_tokens s"
  by (metis trim_def nonspace_runs_tokens whitespace_tokens_trim_end nonspace_runs_dropWhile)

section \<open>Routing of one event\<close>

lemma startsWith_iff: "startsWith s p \<longleftrightarrow> (\<exists>rest. s = p @ rest)"
proof
  assume "startsWith s p"
  then have "s = p @ drop (length p) s"
    unfolding startsWith_def by (metis append_take_drop_id)
  then show "\<exists>rest. s = p @ rest" ..
next
  assume "\<exists>rest. s = p @ rest"
  then show "startsWith s p" unfolding startsWith_def by auto
qed

lemma tokens_of_message:
  "(case match_nonspace (trimmed_text m) of None \<Rightarrow> [] | Some ts \<Rightarrow> ts)
     = whitespace_tokens (case msg_text m of None \<Rightarrow> [] | Some t \<Rightarrow> t)"
proof -
  have a: "(case match_nonspace s of None \<Rightarrow> [] | Some ts \<Rightarrow> ts) = nonspace_runs s" for s
    by (simp add: match_nonspace_def split: list.split)
  show ?thesis
    unfolding a
    by (cases "msg_text m")
      (simp_all add: trimmed_text_def nonspace_runs_trim nonspace_runs_Nil whitespace_tokens_Nil)
qed

lemma second_token: "(case ts of _ # s # _ \<Rightarrow> Some s | _ \<Rightarrow> None) = (if 2 \<le> length ts then Some (ts ! 1) else None)"
  by (cases ts; simp split: list.split) 

text \<open>
  Claim C3. The command handler is called exactly when the event is outgoing; it is then
  called once, with the second whitespace-delimited token of the text (the empty string
  when there is none) as sub-command and the tokens after the second as arguments, the
  first token being dropped. An event of another user whose trimmed text starts with a
  prefix and the plugin's keyword reaches neither handler.
\<close>

theorem doHandlerCommand_routing:
  "doHandlerCommand p m =
     (let toks = whitespace_tokens (case msg_text m of None \<Rightarrow> [] | Some t \<Rightarrow> t);
          sub = (if 2 \<le> length toks then toks ! 1 else [])
      in if isOutgoing m
         then ([HandlerCommand m sub (drop 2 toks)],
               awaited (handlerCommand p m sub (drop 2 toks)))
         else ([], Returned ()))
   \<and> (\<not> isOutgoing m \<and> command p = Some kw \<and> pre \<in> set prefixes
        \<and> trimmed_text m = pre @ kw @ rest
      \<longrightarrow> fst (doHandlerCommand p m) = [] \<and> fst (doHandlerMessage prefixes p m) = [])"
proof
  show "doHandlerCommand p m =
     (let toks = whitespace_tokens (case msg_text m of None \<Rightarrow> [] | Some t \<Rightarrow> t);
          sub = (if 2 \<le> length toks then toks ! 1 else [])
      in if isOutgoing m
         then ([HandlerCommand m sub (drop 2 toks)],
               awaited (handlerCommand p m sub (drop 2 toks)))
         else ([], Returned ()))"
    unfolding doHandlerCommand_def Let_def tokens_of_message second_token
    by simp
  show "\<not> isOutgoing m \<and> command p = Some kw \<and> pre \<in> set prefixes
           \<and> trimmed_text m = pre @ kw @ rest
         \<longrightarrow> fst (doHandlerCommand p m) = [] \<and> fst (doHandlerMessage prefixes p m) = []"
    by (auto simp: doHandlerCommand_def doHandlerMessage_def Let_def list_ex_iff
          startsWith_iff plus_command_def)
qed

lemmas example_defs = message_from_def js_def whitespace_tokens_def is_space_def quiet_plugin_def
  awaited_def trimmed_text_def trim_def

text \<open>
  The spec's example for C3: \<open>/ping\<close> from the operator gives the empty sub-command and
  no arguments; from another user neither handler is called.
\<close>

theorem doHandlerCommand_routing_witness:
  "doHandlerCommand (quiet_plugin (Some ''ping'') ''ping'') (message_from True ''/ping'')
     = ([HandlerCommand (message_from True ''/ping'') [] []], Returned ())
   \<and> doHandlerCommand (quiet_plugin (Some ''ping'') ''ping'') (message_from True ''/ping  now a b'')
     = ([HandlerCommand (message_from True ''/ping  now a b'') (js ''now'') [js ''a'', js ''b'']],
        Returned ())
   \<and> fst (doHandlerCommand (quiet_plugin (Some ''ping'') ''ping'') (message_from False ''/ping'')) = []
   \<and> fst (doHandlerMessage [js ''/''] (quiet_plugin (Some ''ping'') ''ping'')
            (message_from False ''/ping'')) = []"
proof -
  have a: "doHandlerCommand (quiet_plugin (Some ''ping'') ''ping'') (message_from True ''/ping'')
     = ([HandlerCommand (message_from True ''/ping'') [] []], Returned ())"
    using doHandlerCommand_routing
      [of "quiet_plugin (Some ''ping'') ''ping''" "message_from True ''/ping''"]
    by (simp add: example_defs)
  have b: "doHandlerCommand (quiet_plugin (Some ''ping'') ''ping'') (message_from True ''/ping  now a b'')
     = ([HandlerCommand (message_from True ''/ping  now a b'') (js ''now'') [js ''a'', js ''b'']],
        Returned ())"
    using doHandlerCommand_routing
      [of "quiet_plugin (Some ''ping'') ''ping''" "message_from True ''/ping  now a b''"]
    by (simp add: example_defs)
  have c: "fst (doHandlerCommand (quiet_plugin (Some ''ping'') ''ping'') (message_from False ''/ping'')) = []
   \<and> fst (doHandlerMessage [js ''/''] (quiet_plugin (Some ''ping'') ''ping'')
            (message_from False ''/ping'')) = []"
    using doHandlerCommand_routing
      [of "quiet_plugin (Some ''ping'') ''ping''" "message_from False ''/ping''"
          "js ''ping''" "js ''/''" "[js ''/'']" "[]"]
    by (simp add: example_defs)
  from a b c show ?thesis by simp
qed



text \<open>
  Claim C10. For a plugin whose command is \<open>null\<close> the check compares the text with
  the prefix followed by the four letters \<open>null\<close>; an event of another user whose trimmed
  text starts so is dropped without a call of \<open>handleMessage\<close> and without an error.
\<close>

theorem commandless_plugin_null_keyword:
  assumes "command p = None" and "pre \<in> set prefixes" and "\<not> isOutgoing m"
    and "trimmed_text m = pre @ js ''null'' @ rest"
  shows "plus_command pre (command p) = pre @ js ''null''
         \<and> doHandlerMessage prefixes p m = ([], Returned ())"
  using assms
  by (auto simp: doHandlerMessage_def Let_def list_ex_iff startsWith_iff plus_command_def)

text \<open>
  C10 at the prefix \<open>/\<close>: the text \<open>/nullable types\<close> is dropped, the same text without
  the prefix is delivered.
\<close>

theorem commandless_plugin_null_keyword_witness:
  "plus_command (js ''/'') (command (quiet_plugin None ''echo'')) = js ''/null''
   \<and> doHandlerMessage [js ''/''] (quiet_plugin None ''echo'') (message_from False ''/nullable types'')
       = ([], Returned ())
   \<and> doHandlerMessage [js ''/''] (quiet_plugin None ''echo'') (message_from False ''nullable types'')
       = ([HandleMessage (message_from False ''nullable types'')], Returned ())"
proof -
  have t: "trimmed_text (message_from False ''/nullable types'') = js ''/'' @ js ''null'' @ js ''able types''"
    by (simp add: example_defs)
  have "plus_command (js ''/'') (command (quiet_plugin None ''echo'')) = js ''/'' @ js ''null''
   \<and> doHandlerMessage [js ''/''] (quiet_plugin None ''echo'') (message_from False ''/nullable types'')
       = ([], Returned ())"
    using commandless_plugin_null_keyword [of "quiet_plugin None ''echo''" "js ''/''" "[js ''/'']"
        "message_from False ''/nullable types''" "js ''able types''"] t
    by (simp add: quiet_plugin_def message_from_def)
  moreover have "doHandlerMessage [js ''/''] (quiet_plugin None ''echo'') (message_from False ''nullable types'')
       = ([HandleMessage (message_from False ''nullable types'')], Returned ())"
    by (simp add: doHandlerMessage_def Let_def startsWith_def plus_command_def example_defs)
  ultimately show ?thesis by (simp add: js_def)
qed

text \<open>
  Claim C2 as stated fails: the wrappers have no handler for a rejection, so the error of
  a plugin's handler comes out of both of them.
\<close>

theorem invokeHandlerMessage_counterexample:
  "invokeHandlerMessage [js ''/''] crashing_plugin (message_from False ''hello'')
     = ([HandleMessage (message_from False ''hello'')], Threw (Foreign (js ''boom'')))
   \<and> invokeHandlerCommand crashing_plugin (message_from True ''/ping'')
     = ([HandlerCommand (message_from True ''/ping'') [] []], Threw (Foreign (js ''boom'')))"
  by (simp add: invokeHandlerMessage_def invokeHandlerCommand_def doHandlerMessage_def
      doHandlerCommand_def match_nonspace_def nonspace_runs.simps
      Let_def startsWith_def plus_command_def crashing_plugin_def example_defs)

text \<open>
  Claim C2, amended. Each routing wrapper returns \<open>Continue\<close> when the plugin's handler
  was not called or resolved; when the handler rejects, the wrapper rejects with the
  handler's error.
\<close>

theorem invoke_wrappers_outcome:
  "(case snd (invokeHandlerMessage prefixes p m) of
      Returned a \<Rightarrow> a = Continue
         \<and> (fst (invokeHandlerMessage prefixes p m) = [] \<or> handleMessage p m = None)
    | Threw err \<Rightarrow> fst (invokeHandlerMessage prefixes p m) = [HandleMessage m]
         \<and> (\<exists>e. handleMessage p m = Some e \<and> err = Foreign e))
   \<and> (case snd (invokeHandlerCommand p m) of
      Returned a \<Rightarrow> a = Continue
         \<and> (fst (invokeHandlerCommand p m) = []
            \<or> (\<exists>sub args. fst (invokeHandlerCommand p m) = [HandlerCommand m sub args]
                 \<and> handlerCommand p m sub args = None))
    | Threw err \<Rightarrow>
         (\<exists>sub args e. fst (invokeHandlerCommand p m) = [HandlerCommand m sub args]
            \<and> handlerCommand p m sub args = Some e \<and> err = Foreign e))"
  by (auto simp: invokeHandlerMessage_def invokeHandlerCommand_def doHandlerMessage_def
      doHandlerCommand_def Let_def awaited_def split: option.splits outcome.splits)

text \<open>
  The amended C2 at a plugin whose handler resolves and at one whose handler rejects.
\<close>

theorem invoke_wrappers_outcome_witness:
  "snd (invokeHandlerMessage [js ''/''] (quiet_plugin (Some ''ping'') ''ping'') (message_from False ''hello''))
     = Returned Continue
   \<and> snd (invokeHandlerMessage [js ''/''] crashing_plugin (message_from False ''hello''))
     = Threw (Foreign (js ''boom''))"
proof -
  have a: "snd (invokeHandlerMessage [js ''/''] (quiet_plugin (Some ''ping'') ''ping'') (message_from False ''hello''))
     = Returned Continue"
    using invoke_wrappers_outcome [of "[js ''/'']" "quiet_plugin (Some ''ping'') ''ping''"
        "message_from False ''hello''"]
    by (auto simp: quiet_plugin_def split: outcome.splits)
  have f: "fst (invokeHandlerMessage [js ''/''] crashing_plugin (message_from False ''hello''))
      = [HandleMessage (message_from False ''hello'')]"
    by (simp add: invokeHandlerMessage_def doHandlerMessage_def Let_def startsWith_def
        plus_command_def crashing_plugin_def example_defs)
  have b: "snd (invokeHandlerMessage [js ''/''] crashing_plugin (message_from False ''hello''))
     = Threw (Foreign (js ''boom''))"
    using invoke_wrappers_outcome [of "[js ''/'']" crashing_plugin "message_from False ''hello''"] f
    by (auto simp: crashing_plugin_def split: outcome.splits)
  from a b show ?thesis by simp
qed

section \<open>The plugin manager: proofs\<close>

subsection \<open>Registering and unregistering\<close>

lemma unregisterHandlers_fields [simp]:
  "plugins (unregisterHandlers ids s) = plugins s"
  "pluginsByFile (unregisterHandlers ids s) = pluginsByFile s"
  "next_oid (unregisterHandlers ids s) = next_oid s"
  "io_calls (unregisterHandlers ids s) = io_calls s"
  "userPluginDir (unregisterHandlers ids s) = userPluginDir s"
  "systemPluginDir (unregisterHandlers ids s) = systemPluginDir s"
  by (induction ids arbitrary: s; simp add: unregisterHandlers_def)+

lemma dispatcher_unregisterHandlers:
  "dispatcher (unregisterHandlers ids s)
     = fold (\<lambda>e d. removeUpdateHandler (handler e) (group e) d) ids (dispatcher s)"
  by (induction ids arbitrary: s) (simp_all add: unregisterHandlers_def)

lemma remove_object_absent: "i \<notin> oid ` set d \<Longrightarrow> remove_object i d = d"
  by (induction d) auto

lemma remove_object_append:
  "i \<notin> oid ` set old \<Longrightarrow> remove_object i (old @ hs) = old @ remove_object i hs"
  by (induction old) auto

lemma fold_remove_new:
  assumes "\<forall>e \<in> set ids. group e = None \<and> oid (handler e) \<notin> oid ` set old"
    and "distinct (map (\<lambda>e. oid (handler e)) ids)"
  shows "fold (\<lambda>e d. removeUpdateHandler (handler e) (group e) d) ids (old @ map handler ids) = old"
  using assms
proof (induction ids)
  case Nil
  then show ?case by simp
next
  case (Cons e ids)
  have "removeUpdateHandler (handler e) (group e) (old @ map handler (e # ids))
          = old @ map handler ids"
    using Cons.prems by (simp add: removeUpdateHandler_def remove_object_append)
  with Cons show ?case by simp
qed

lemma registered_from_subscribe:
  "registered_from s acc \<Longrightarrow> registered_from s (subscribe n cb flt acc)"
  by (cases acc) (auto simp: registered_from_def subscribe_def addUpdateHandler_def Let_def)

lemma registered_from_registerHandlers: "registered_from s (registerHandlers w p s)"
proof -
  have 0: "registered_from s ([], s)" by (simp add: registered_from_def)
  show ?thesis
    unfolding registerHandlers_def Let_def
    by (auto simp: 0 intro!: registered_from_subscribe split: option.split)
qed

lemma registerHandlers_rollback:
  assumes "fresh_objects s" and "registerHandlers w p s = (ids, s1)"
  shows "dispatcher (unregisterHandlers ids s1) = dispatcher s"
proof -
  have r: "registered_from s (ids, s1)"
    using registered_from_registerHandlers [of s w p] assms(2) by simp
  then have d: "dispatcher s1 = dispatcher s @ map handler ids"
    and o: "map (\<lambda>e. oid (handler e)) ids = [next_oid s ..< next_oid s + length ids]"
    and g: "\<forall>e \<in> set ids. group e = None"
    by (simp_all add: registered_from_def)
  have "distinct (map (\<lambda>e. oid (handler e)) ids)" unfolding o by simp
  moreover have "\<forall>e \<in> set ids. oid (handler e) \<notin> oid ` set (dispatcher s)"
  proof
    fix e assume "e \<in> set ids"
    then have "oid (handler e) \<in> set (map (\<lambda>e. oid (handler e)) ids)" by force
    then have "next_oid s \<le> oid (handler e)" unfolding o by simp
    with assms(1) show "oid (handler e) \<notin> oid ` set (dispatcher s)"
      by (auto simp: fresh_objects_def)
  qed
  ultimately show ?thesis
    using g by (simp add: dispatcher_unregisterHandlers d fold_remove_new)
qed

subsection \<open>Loading one file\<close>

lemma registerHandlers_fields:
  assumes "registerHandlers w p s = (ids, s1)"
  shows "plugins s1 = plugins s" "pluginsByFile s1 = pluginsByFile s"
    "io_calls s1 = io_calls s" "userPluginDir s1 = userPluginDir s"
    "systemPluginDir s1 = systemPluginDir s"
    "dispatcher s1 = dispatcher s @ map handler ids"
    "next_oid s1 = next_oid s + length ids"
    "map (\<lambda>e. oid (handler e)) ids = [next_oid s ..< next_oid s + length ids]"
    "\<forall>e \<in> set ids. group e = None"
  using registered_from_registerHandlers [of s w p] assms
  by (simp_all add: registered_from_def)

lemma loadFromFile_Threw:
  assumes "loadFromFile w path options knd s = (Threw e, s')"
  shows "plugins s' = plugins s" and "pluginsByFile s' = pluginsByFile s"
    and "fresh_objects s \<Longrightarrow> dispatcher s' = dispatcher s"
    and "next_oid s \<le> next_oid s'"
proof -
  let ?s0 = "s\<lparr>io_calls := io_calls s @ [Import path (forceReload options = Some True)]\<rparr>"
  have f0: "fresh_objects s \<Longrightarrow> fresh_objects ?s0" by (simp add: fresh_objects_def)
  have rb: "fresh_objects s \<Longrightarrow> registerHandlers w p ?s0 = (ids, s1)
      \<Longrightarrow> dispatcher (unregisterHandlers ids s1) = dispatcher s" for p ids s1
    using registerHandlers_rollback [OF f0, of w p ids s1] by simp
  show "plugins s' = plugins s" and "pluginsByFile s' = pluginsByFile s"
    and "next_oid s \<le> next_oid s'"
    using assms
    by (auto simp: loadFromFile_def Let_def dest: registerHandlers_fields
        split: sum.splits js_value.splits constructed.splits option.splits prod.splits if_splits)
  show "fresh_objects s \<Longrightarrow> dispatcher s' = dispatcher s"
    using assms
    by (auto simp: loadFromFile_def Let_def dest: rb
        split: sum.splits js_value.splits constructed.splits option.splits prod.splits if_splits)
qed

lemma loadFromFile_io_calls:
  assumes "loadFromFile w path options knd s = (res, s')"
  shows "io_calls s' = io_calls s @ [Import path (forceReload options = Some True)]"
    and "userPluginDir s' = userPluginDir s" and "systemPluginDir s' = systemPluginDir s"
  using assms
  by (auto simp: loadFromFile_def Let_def dest: registerHandlers_fields
      split: sum.splits js_value.splits constructed.splits option.splits prod.splits if_splits)

lemma loadFromFile_Returned:
  assumes "loadFromFile w path options knd s = (Returned u, s')"
  shows "\<exists>mdl p ids s1.
           import_module w path (forceReload options = Some True) = Inr mdl
         \<and> nullish_or (default_export mdl) (Plugin_export mdl) = js_unit (plugin_instance p)
         \<and> map_of (plugins s) (name p) = None \<and> onLoad p = None
         \<and> registerHandlers w p
             (s\<lparr>io_calls := io_calls s @ [Import path (forceReload options = Some True)]\<rparr>)
           = (ids, s1)
         \<and> plugins s' = AList.update (name p)
              \<lparr>r_name = name p, filePath = path, kind = knd, handlerIds = ids, inst = p\<rparr>
              (plugins s)
         \<and> pluginsByFile s' = AList.update path
              \<lparr>r_name = name p, filePath = path, kind = knd, handlerIds = ids, inst = p\<rparr>
              (pluginsByFile s)
         \<and> dispatcher s' = dispatcher s @ map handler ids
         \<and> next_oid s' = next_oid s + length ids"
  using assms
  by (auto simp: loadFromFile_def Let_def dest: registerHandlers_fields
      split: sum.splits js_value.splits constructed.splits option.splits prod.splits if_splits)

lemmas manager_defs = example_world_def example_modules_def exports_default_def hooked_plugin_def
  quiet_plugin_def empty_manager_def no_options_def js_def slash_def
  loadFromFile_def registerHandlers_def subscribe_def addUpdateHandler_def unregisterHandlers_def
  removeUpdateHandler_def nullish_or_def Let_def

text \<open>
  Claim C1. When \<open>loadFromFile\<close> fails, at whichever step, both indices are what
  they were, so no record of the attempt exists, and the dispatcher holds exactly the
  handlers it held before: none of the handler objects the attempt allocated is
  registered. When the failure is that of \<open>onLoad\<close>, the error raised is that of
  \<open>onLoad\<close>.
\<close>

theorem loadFromFile_failure_rollback:
  assumes "fresh_objects s" and "fst (loadFromFile w path options knd s) = Threw e"
  shows "plugins (snd (loadFromFile w path options knd s)) = plugins s
       \<and> pluginsByFile (snd (loadFromFile w path options knd s)) = pluginsByFile s
       \<and> list_plugins (snd (loadFromFile w path options knd s)) = list_plugins s
       \<and> dispatcher (snd (loadFromFile w path options knd s)) = dispatcher s
       \<and> (\<forall>h \<in> set (dispatcher (snd (loadFromFile w path options knd s))). oid h < next_oid s)
       \<and> (\<forall>p msg. plugin_of_file w path options = Some p \<and> map_of (plugins s) (name p) = None
              \<and> onLoad p = Some msg \<longrightarrow> e = Foreign msg)"
proof -
  obtain s' where l: "loadFromFile w path options knd s = (Threw e, s')"
    using assms(2) by (cases "loadFromFile w path options knd s") simp
  have "\<forall>p msg. plugin_of_file w path options = Some p \<and> map_of (plugins s) (name p) = None
              \<and> onLoad p = Some msg \<longrightarrow> e = Foreign msg"
    using l
    by (auto simp: plugin_of_file_def loadFromFile_def Let_def nullish_or_def
        split: sum.splits js_value.splits constructed.splits prod.splits if_splits)
  then show ?thesis
    using loadFromFile_Threw [OF l] assms(1)
    by (simp add: l list_plugins_def fresh_objects_def)
qed

text \<open>
  C1 at a plugin whose \<open>onLoad\<close> rejects, loaded into a manager that already holds a
  plugin with three registered handlers.
\<close>

theorem loadFromFile_failure_rollback_witness:
  "fresh_objects ping_loaded
   \<and> fst (loadFromFile example_world (js ''/p/user/failing.ts'') no_options user ping_loaded)
       = Threw (Foreign (js ''onLoad failed''))
   \<and> length (dispatcher ping_loaded) = 3
   \<and> dispatcher (snd (loadFromFile example_world (js ''/p/user/failing.ts'') no_options user
        ping_loaded)) = dispatcher ping_loaded
   \<and> list_plugins (snd (loadFromFile example_world (js ''/p/user/failing.ts'') no_options user
        ping_loaded)) = list_plugins ping_loaded
   \<and> pluginsByFile (snd (loadFromFile example_world (js ''/p/user/failing.ts'') no_options user
        ping_loaded)) = pluginsByFile ping_loaded"
proof -
  have f: "fresh_objects ping_loaded"
    by (simp add: fresh_objects_def ping_loaded_def manager_defs)
  have t: "fst (loadFromFile example_world (js ''/p/user/failing.ts'') no_options user ping_loaded)
       = Threw (Foreign (js ''onLoad failed''))"
    by (simp add: ping_loaded_def manager_defs)
  have n: "length (dispatcher ping_loaded) = 3"
    by (simp add: ping_loaded_def manager_defs)
  show ?thesis
    using loadFromFile_failure_rollback [OF f t] f t n by simp
qed

subsection \<open>Unloading\<close>

lemma remove_object_filter:
  "distinct (map oid d) \<Longrightarrow> remove_object i d = filter (\<lambda>h. oid h \<noteq> i) d"
proof (induction d)
  case Nil
  then show ?case by simp
next
  case (Cons h hs)
  show ?case
  proof (cases "oid h = i")
    case True
    with Cons.prems have "i \<notin> oid ` set hs" by auto
    then have "filter (\<lambda>h. oid h \<noteq> i) hs = hs" by (auto intro: filter_True)
    with True show ?thesis by simp
  next
    case False
    with Cons show ?thesis by simp
  qed
qed

lemma fold_remove_filter:
  assumes "distinct (map oid d)" and "\<forall>e \<in> set ids. group e = None"
  shows "fold (\<lambda>e d. removeUpdateHandler (handler e) (group e) d) ids d
           = filter (\<lambda>h. oid h \<notin> set (map (\<lambda>e. oid (handler e)) ids)) d"
  using assms
proof (induction ids arbitrary: d)
  case Nil
  then show ?case by simp
next
  case (Cons e ids)
  have r: "removeUpdateHandler (handler e) (group e) d = filter (\<lambda>h. oid h \<noteq> oid (handler e)) d"
    using Cons.prems by (simp add: removeUpdateHandler_def remove_object_filter)
  have "distinct (map oid (filter (\<lambda>h. oid h \<noteq> oid (handler e)) d))"
    using Cons.prems(1) by (rule distinct_map_filter)
  then have "fold (\<lambda>e d. removeUpdateHandler (handler e) (group e) d) ids
               (filter (\<lambda>h. oid h \<noteq> oid (handler e)) d)
             = filter (\<lambda>h. oid h \<notin> set (map (\<lambda>e. oid (handler e)) ids))
                 (filter (\<lambda>h. oid h \<noteq> oid (handler e)) d)"
    using Cons.IH Cons.prems(2) by simp
  then show ?case
    by (auto simp: r intro: filter_cong)
qed

text \<open>
  Claim C5 as stated fails: when \<open>onUnload\<close> rejects, \<open>unloadUser\<close> rejects before the
  two \<open>delete\<close> calls, and the record is still in both indices.
\<close>

theorem unloadUser_failing_hook_counterexample:
  "map_of (plugins stubborn_loaded) (js ''stubborn'') \<noteq> None
   \<and> fst (unloadUser (js ''stubborn'') stubborn_loaded) = Threw (Foreign (js ''onUnload failed''))
   \<and> map_of (plugins (snd (unloadUser (js ''stubborn'') stubborn_loaded))) (js ''stubborn'')
       \<noteq> None
   \<and> map_of (pluginsByFile (snd (unloadUser (js ''stubborn'') stubborn_loaded)))
         (js ''/p/user/stubborn.ts'') \<noteq> None
   \<and> plugins (snd (unloadUser (js ''stubborn'') stubborn_loaded)) = plugins stubborn_loaded
   \<and> pluginsByFile (snd (unloadUser (js ''stubborn'') stubborn_loaded))
       = pluginsByFile stubborn_loaded"
  by (simp add: unloadUser_def stubborn_loaded_def ping_loaded_def manager_defs)

text \<open>
  Claim C5, amended. Unloading an existing user plugin by name first removes the
  record's handlers from the dispatcher, whatever the hook does. When \<open>onUnload\<close>
  resolves, the record is deleted from both indices. When \<open>onUnload\<close> rejects, its error
  is raised and both indices are unchanged.
\<close>

theorem unloadUser_outcome:
  assumes "map_of (plugins s) n = Some r" and "kind r = user"
    and "distinct (map oid (dispatcher s))" and "\<forall>e \<in> set (handlerIds r). group e = None"
  shows "dispatcher (snd (unloadUser n s))
           = filter (\<lambda>h. oid h \<notin> set (map (\<lambda>e. oid (handler e)) (handlerIds r))) (dispatcher s)
       \<and> (onUnload (inst r) = None \<longrightarrow>
            fst (unloadUser n s) = Returned ()
            \<and> plugins (snd (unloadUser n s)) = AList.delete (r_name r) (plugins s)
            \<and> pluginsByFile (snd (unloadUser n s)) = AList.delete (filePath r) (pluginsByFile s)
            \<and> map_of (plugins (snd (unloadUser n s))) (r_name r) = None
            \<and> map_of (pluginsByFile (snd (unloadUser n s))) (filePath r) = None)
       \<and> (\<forall>msg. onUnload (inst r) = Some msg \<longrightarrow>
            fst (unloadUser n s) = Threw (Foreign msg)
            \<and> plugins (snd (unloadUser n s)) = plugins s
            \<and> pluginsByFile (snd (unloadUser n s)) = pluginsByFile s)"
proof -
  have d: "dispatcher (unregisterHandlers (handlerIds r) s)
      = filter (\<lambda>h. oid h \<notin> set (map (\<lambda>e. oid (handler e)) (handlerIds r))) (dispatcher s)"
    using assms(3,4) by (simp only: dispatcher_unregisterHandlers fold_remove_filter)
  show ?thesis
  proof (cases "onUnload (inst r)")
    case None
    with assms(1,2) d show ?thesis
      by (simp add: unloadUser_def Let_def delete_conv')
  next
    case (Some msg)
    with assms(1,2) d show ?thesis
      by (simp add: unloadUser_def Let_def)
  qed
qed

text \<open>
  The amended C5 at a manager holding two user plugins, one whose \<open>onUnload\<close> resolves
  and one whose \<open>onUnload\<close> rejects.
\<close>

theorem unloadUser_outcome_witness:
  "fst (unloadUser (js ''ping'') stubborn_loaded) = Returned ()
   \<and> map_of (plugins (snd (unloadUser (js ''ping'') stubborn_loaded))) (js ''ping'') = None
   \<and> map_of (pluginsByFile (snd (unloadUser (js ''ping'') stubborn_loaded)))
        (js ''/p/user/ping.ts'') = None
   \<and> map oid (dispatcher stubborn_loaded) = [0, 1, 2, 3, 4, 5]
   \<and> map oid (dispatcher (snd (unloadUser (js ''ping'') stubborn_loaded))) = [3, 4, 5]
   \<and> fst (unloadUser (js ''stubborn'') stubborn_loaded) = Threw (Foreign (js ''onUnload failed''))
   \<and> map oid (dispatcher (snd (unloadUser (js ''stubborn'') stubborn_loaded))) = [0, 1, 2]
   \<and> plugins (snd (unloadUser (js ''stubborn'') stubborn_loaded)) = plugins stubborn_loaded
   \<and> pluginsByFile (snd (unloadUser (js ''stubborn'') stubborn_loaded))
       = pluginsByFile stubborn_loaded"
proof -
  obtain r1 where r1: "map_of (plugins stubborn_loaded) (js ''ping'') = Some r1"
      "kind r1 = user" "\<forall>e \<in> set (handlerIds r1). group e = None"
      "onUnload (inst r1) = None" "r_name r1 = js ''ping''" "filePath r1 = js ''/p/user/ping.ts''"
    by (simp add: stubborn_loaded_def ping_loaded_def manager_defs)
  obtain r2 where r2: "map_of (plugins stubborn_loaded) (js ''stubborn'') = Some r2"
      "kind r2 = user" "\<forall>e \<in> set (handlerIds r2). group e = None"
      "onUnload (inst r2) = Some (js ''onUnload failed'')"
    by (simp add: stubborn_loaded_def ping_loaded_def manager_defs)
  have d: "distinct (map oid (dispatcher stubborn_loaded))"
    by (simp add: stubborn_loaded_def ping_loaded_def manager_defs)
  have "fst (unloadUser (js ''ping'') stubborn_loaded) = Returned ()
   \<and> map_of (plugins (snd (unloadUser (js ''ping'') stubborn_loaded))) (r_name r1) = None
   \<and> map_of (pluginsByFile (snd (unloadUser (js ''ping'') stubborn_loaded))) (filePath r1) = None"
    using unloadUser_outcome [OF r1(1) r1(2) d r1(3)] r1(4) by blast
  then have a: "fst (unloadUser (js ''ping'') stubborn_loaded) = Returned ()
   \<and> map_of (plugins (snd (unloadUser (js ''ping'') stubborn_loaded))) (js ''ping'') = None
   \<and> map_of (pluginsByFile (snd (unloadUser (js ''ping'') stubborn_loaded)))
        (js ''/p/user/ping.ts'') = None"
    by (simp only: r1(5,6))
  have b: "fst (unloadUser (js ''stubborn'') stubborn_loaded) = Threw (Foreign (js ''onUnload failed''))
   \<and> plugins (snd (unloadUser (js ''stubborn'') stubborn_loaded)) = plugins stubborn_loaded
   \<and> pluginsByFile (snd (unloadUser (js ''stubborn'') stubborn_loaded))
       = pluginsByFile stubborn_loaded"
    using unloadUser_outcome [OF r2(1) r2(2) d r2(3)] r2(4) by blast
  have c: "map oid (dispatcher stubborn_loaded) = [0, 1, 2, 3, 4, 5]"
    "map oid (dispatcher (snd (unloadUser (js ''ping'') stubborn_loaded))) = [3, 4, 5]"
    "map oid (dispatcher (snd (unloadUser (js ''stubborn'') stubborn_loaded))) = [0, 1, 2]"
    by (simp_all add: unloadUser_def stubborn_loaded_def ping_loaded_def manager_defs)
  from a b c show ?thesis by simp
qed

subsection \<open>The export that is instantiated\<close>

text \<open>
  Claim C6 as stated fails in both directions. A module with no default export and an
  export named \<open>Plugin\<close> loads, and that export is instantiated; a module whose default
  export is a falsy value fails with the no-export error although it has a default
  export.
\<close>

theorem loadFromFile_named_export_counterexample:
  "import_module example_world (js ''/p/user/named.ts'') False
     = Inr \<lparr>default_export = js_undefined,
            Plugin_export = js_unit (plugin_instance (quiet_plugin (Some ''named'') ''named''))\<rparr>
   \<and> fst (loadFromFile example_world (js ''/p/user/named.ts'') no_options user empty_manager)
       = Returned ()
   \<and> map fst (plugins (snd (loadFromFile example_world (js ''/p/user/named.ts'') no_options user
        empty_manager))) = [js ''named'']
   \<and> import_module example_world (js ''/p/user/zero.ts'') False
       = Inr \<lparr>default_export = js_falsy, Plugin_export = js_undefined\<rparr>
   \<and> fst (loadFromFile example_world (js ''/p/user/zero.ts'') no_options user empty_manager)
       = Threw (PluginFileHasNoExport (js ''/p/user/zero.ts''))"
  by (simp add: manager_defs)

text \<open>
  Claim C6, amended. The unit chosen from an evaluated module is its default export
  unless that is \<open>undefined\<close> or \<open>null\<close>, and then the export named \<open>Plugin\<close>. The load
  fails with the no-export error exactly when the chosen unit is falsy. Otherwise the
  chosen unit is the one instantiated: what its construction does decides the load, and
  the record of a successful load holds the instance it constructed.
\<close>

theorem loadFromFile_export_choice:
  assumes "import_module w path (forceReload options = Some True) = Inr mdl"
  shows "let chosen = (if default_export mdl = js_undefined \<or> default_export mdl = js_null
                       then Plugin_export mdl else default_export mdl);
             res = loadFromFile w path options knd s
         in (fst res = Threw (PluginFileHasNoExport path)
               \<longleftrightarrow> chosen = js_undefined \<or> chosen = js_null \<or> chosen = js_falsy)
          \<and> (\<forall>msg. chosen = js_unit (ctor_throws msg) \<longrightarrow> fst res = Threw (Foreign msg))
          \<and> (chosen = js_unit not_a_plugin \<longrightarrow> fst res = Threw (PluginMustExtendBasePlugin path))
          \<and> (fst res = Returned () \<longrightarrow>
                (\<exists>p r. chosen = js_unit (plugin_instance p) \<and> inst r = p
                   \<and> map_of (plugins (snd res)) (name p) = Some r
                   \<and> map_of (pluginsByFile (snd res)) path = Some r))"
proof -
  have n: "nullish_or (default_export mdl) (Plugin_export mdl)
      = (if default_export mdl = js_undefined \<or> default_export mdl = js_null
         then Plugin_export mdl else default_export mdl)"
    by (simp add: nullish_or_def split: js_value.split)
  show ?thesis
  proof (cases "loadFromFile w path options knd s")
    case (Pair res s')
    show ?thesis
    proof (cases res)
      case (Threw e)
      with Pair assms n show ?thesis
        by (auto simp: loadFromFile_def Let_def
            split: js_value.splits constructed.splits option.splits prod.splits if_splits)
    next
      case (Returned u)
      from loadFromFile_Returned [OF Pair [unfolded Returned]] assms n
      show ?thesis
        by (auto simp: Pair Returned Let_def update_conv')
    qed
  qed
qed

text \<open>
  The amended C6 at a module with only a named export and at one whose default export
  is falsy.
\<close>

theorem loadFromFile_export_choice_witness:
  "fst (loadFromFile example_world (js ''/p/user/named.ts'') no_options user empty_manager)
       = Returned ()
   \<and> fst (loadFromFile example_world (js ''/p/user/zero.ts'') no_options user empty_manager)
       = Threw (PluginFileHasNoExport (js ''/p/user/zero.ts''))
   \<and> fst (loadFromFile example_world (js ''/p/user/named.ts'') no_options user empty_manager)
       \<noteq> Threw (PluginFileHasNoExport (js ''/p/user/named.ts''))"
proof -
  have i1: "import_module example_world (js ''/p/user/named.ts'') (forceReload no_options = Some True)
     = Inr \<lparr>default_export = js_undefined,
            Plugin_export = js_unit (plugin_instance (quiet_plugin (Some ''named'') ''named''))\<rparr>"
    by (simp add: manager_defs)
  have i2: "import_module example_world (js ''/p/user/zero.ts'') (forceReload no_options = Some True)
       = Inr \<lparr>default_export = js_falsy, Plugin_export = js_undefined\<rparr>"
    by (simp add: manager_defs)
  have a: "fst (loadFromFile example_world (js ''/p/user/named.ts'') no_options user empty_manager)
       \<noteq> Threw (PluginFileHasNoExport (js ''/p/user/named.ts''))"
    using loadFromFile_export_choice [OF i1, of user empty_manager]
    by (simp add: Let_def)
  have b: "fst (loadFromFile example_world (js ''/p/user/zero.ts'') no_options user empty_manager)
       = Threw (PluginFileHasNoExport (js ''/p/user/zero.ts''))"
    using loadFromFile_export_choice [OF i2, of user empty_manager]
    by (simp add: Let_def)
  have c: "fst (loadFromFile example_world (js ''/p/user/named.ts'') no_options user empty_manager)
       = Returned ()"
    by (simp add: manager_defs)
  from a b c show ?thesis by simp
qed

subsection \<open>Two files, one name\<close>

lemma update_absent: "map_of al k = None \<Longrightarrow> AList.update k v al = al @ [(k, v)]"
  by (induction al) (auto split: if_splits)







subsection \<open>Scanning a directory\<close>

lemma loadFromFile_indices:
  assumes "loadFromFile w path options knd s = (res, s')"
  shows "(plugins s' = plugins s \<and> pluginsByFile s' = pluginsByFile s)
       \<or> (\<exists>r. r_name r \<notin> fst ` set (plugins s) \<and> filePath r = path
              \<and> plugins s' = AList.update (r_name r) r (plugins s)
              \<and> pluginsByFile s' = AList.update path r (pluginsByFile s))"
proof (cases res)
  case (Threw e)
  with assms loadFromFile_Threw(1,2) show ?thesis by blast
next
  case (Returned u)
  from loadFromFile_Returned [OF assms [unfolded Returned]]
  obtain p ids where "map_of (plugins s) (name p) = None"
    and "plugins s' = AList.update (name p)
              \<lparr>r_name = name p, filePath = path, kind = knd, handlerIds = ids, inst = p\<rparr>
              (plugins s)"
    and "pluginsByFile s' = AList.update path
              \<lparr>r_name = name p, filePath = path, kind = knd, handlerIds = ids, inst = p\<rparr>
              (pluginsByFile s)"
    by blast
  then show ?thesis
    by (intro disjI2 exI [of _ "\<lparr>r_name = name p, filePath = path, kind = knd,
          handlerIds = ids, inst = p\<rparr>"]) (simp add: map_of_eq_None_iff)
qed

lemma indices_agree_update:
  assumes "indices_agree s" and "r_name r \<notin> fst ` set (plugins s)"
    and "filePath r \<notin> fst ` set (pluginsByFile s)"
    and p: "plugins s' = AList.update (r_name r) r (plugins s)"
    and f: "pluginsByFile s' = AList.update (filePath r) r (pluginsByFile s)"
  shows "indices_agree s'"
proof -
  have np: "map_of (plugins s) (r_name r) = None" and nf: "map_of (pluginsByFile s) (filePath r) = None"
    using assms(2,3) by (simp_all add: map_of_eq_None_iff)
  have sp: "set (plugins s') = insert (r_name r, r) (set (plugins s))"
    and sf: "set (pluginsByFile s') = insert (filePath r, r) (set (pluginsByFile s))"
    by (simp_all add: p f update_absent np nf)
  have mp: "map_of (plugins s') = (map_of (plugins s))(r_name r \<mapsto> r)"
    and mf: "map_of (pluginsByFile s') = (map_of (pluginsByFile s))(filePath r \<mapsto> r)"
    by (simp_all add: p f update_conv')
  have d: "distinct (map fst (plugins s'))" "distinct (map fst (pluginsByFile s'))"
    using assms(1) by (simp_all add: p f distinct_update indices_agree_def)
  have a: "\<forall>(n, r') \<in> set (plugins s').
           r_name r' = n \<and> map_of (pluginsByFile s') (filePath r') = Some r'"
    using assms(1) nf unfolding sp mf indices_agree_def by auto
  have b: "\<forall>(f, r') \<in> set (pluginsByFile s').
           filePath r' = f \<and> map_of (plugins s') (r_name r') = Some r'"
    using assms(1) np unfolding sf mp indices_agree_def by auto
  from d a b show ?thesis unfolding indices_agree_def by blast
qed

lemma loadFromFile_unindexed:
  assumes "map_of (pluginsByFile s) path = None"
    and "loadFromFile w path options knd s = (res, s')"
  shows "indices_agree s \<Longrightarrow> indices_agree s'"
    and "map_of (pluginsByFile s) q = Some r \<Longrightarrow> map_of (pluginsByFile s') q = Some r"
proof -
  from loadFromFile_indices [OF assms(2)]
  consider "plugins s' = plugins s \<and> pluginsByFile s' = pluginsByFile s"
    | r' where "r_name r' \<notin> fst ` set (plugins s)" "filePath r' = path"
      "plugins s' = AList.update (r_name r') r' (plugins s)"
      "pluginsByFile s' = AList.update path r' (pluginsByFile s)"
    by blast
  then have "(indices_agree s \<longrightarrow> indices_agree s')
     \<and> (map_of (pluginsByFile s) q = Some r \<longrightarrow> map_of (pluginsByFile s') q = Some r)"
  proof cases
    case 1
    then have "indices_agree s' = indices_agree s" by (simp only: indices_agree_def)
    with 1 show ?thesis by simp
  next
    case 2
    have "filePath r' \<notin> fst ` set (pluginsByFile s)"
      using assms(1) 2(2) by (simp add: map_of_eq_None_iff)
    then have "indices_agree s \<longrightarrow> indices_agree s'"
      using indices_agree_update [OF _ 2(1)] 2 by simp
    moreover have "map_of (pluginsByFile s) q = Some r \<longrightarrow> map_of (pluginsByFile s') q = Some r"
      using assms(1) by (auto simp: 2(4) update_conv')
    ultimately show ?thesis ..
  qed
  then show "indices_agree s \<Longrightarrow> indices_agree s'"
    and "map_of (pluginsByFile s) q = Some r \<Longrightarrow> map_of (pluginsByFile s') q = Some r"
    by simp_all
qed

lemma scan_entries_invariant:
  assumes "scan_entries w dir knd options entries s = (res, s')"
  shows "(indices_agree s \<longrightarrow> indices_agree s')
       \<and> (\<forall>q r. map_of (pluginsByFile s) q = Some r \<longrightarrow> map_of (pluginsByFile s') q = Some r)
       \<and> (\<exists>new. io_calls s' = io_calls s @ new
              \<and> (\<forall>q f. Import q f \<in> set new \<longrightarrow> map_of (pluginsByFile s) q = None))"
  using assms
proof (induction entries arbitrary: s)
  case Nil
  then show ?case by simp
next
  case (Cons entry entries)
  let ?path = "path_join w dir (d_name entry)"
  show ?case
  proof (cases "isFile entry \<and> isPluginFile (d_name entry) \<and> map_of (pluginsByFile s) ?path = None")
    case False
    then have "scan_entries w dir knd options entries s = (res, s')"
      using Cons.prems by (auto simp: Let_def split: if_splits)
    with Cons.IH show ?thesis by blast
  next
    case True
    obtain res1 s1 where l: "loadFromFile w ?path options knd s = (res1, s1)"
      by (cases "loadFromFile w ?path options knd s")
    have un: "map_of (pluginsByFile s) ?path = None" using True by simp
    have a1: "indices_agree s \<longrightarrow> indices_agree s1"
      and k1: "\<And>q r. map_of (pluginsByFile s) q = Some r \<Longrightarrow> map_of (pluginsByFile s1) q = Some r"
      using loadFromFile_unindexed [OF un l] by blast+
    have io1: "io_calls s1 = io_calls s @ [Import ?path (forceReload options = Some True)]"
      using loadFromFile_io_calls(1) [OF l] .
    show ?thesis
    proof (cases res1)
      case (Threw e)
      then have "s' = s1"
        using Cons.prems True l by (simp add: Let_def)
      with a1 k1 io1 un show ?thesis by auto
    next
      case (Returned u)
      then have "scan_entries w dir knd options entries s1 = (res, s')"
        using Cons.prems True l by (simp add: Let_def)
      from Cons.IH [OF this] obtain new where a': "indices_agree s1 \<longrightarrow> indices_agree s'"
        and k': "\<forall>q r. map_of (pluginsByFile s1) q = Some r \<longrightarrow> map_of (pluginsByFile s') q = Some r"
        and io': "io_calls s' = io_calls s1 @ new"
        and n': "\<forall>q f. Import q f \<in> set new \<longrightarrow> map_of (pluginsByFile s1) q = None"
        by blast
      have "\<forall>q f. Import q f \<in> set (Import ?path (forceReload options = Some True) # new)
               \<longrightarrow> map_of (pluginsByFile s) q = None"
      proof (intro allI impI)
        fix q f
        assume "Import q f \<in> set (Import ?path (forceReload options = Some True) # new)"
        then consider "q = ?path" | "Import q f \<in> set new" by auto
        then show "map_of (pluginsByFile s) q = None"
        proof cases
          case 1
          with un show ?thesis by simp
        next
          case 2
          with n' have "map_of (pluginsByFile s1) q = None" by blast
          with k1 show ?thesis by (cases "map_of (pluginsByFile s) q") auto
        qed
      qed
      moreover have "io_calls s' = io_calls s @ Import ?path (forceReload options = Some True) # new"
        by (simp add: io' io1)
      ultimately show ?thesis
        using a1 a' k' k1 by blast
    qed
  qed
qed

lemma indices_agree_paths_once:
  assumes "indices_agree s"
  shows "distinct (map filePath (list_plugins s))"
proof -
  have d: "distinct (plugins s)"
    using assms by (simp add: indices_agree_def distinct_map)
  have "inj_on (\<lambda>x. filePath (snd x)) (set (plugins s))"
  proof (rule inj_onI)
    fix x y
    assume x: "x \<in> set (plugins s)" and y: "y \<in> set (plugins s)"
      and e: "filePath (snd x) = filePath (snd y)"
    have a: "\<And>n r. (n, r) \<in> set (plugins s)
        \<Longrightarrow> r_name r = n \<and> map_of (pluginsByFile s) (filePath r) = Some r"
      using assms unfolding indices_agree_def by blast
    have nx: "r_name (snd x) = fst x"
      and mx: "map_of (pluginsByFile s) (filePath (snd x)) = Some (snd x)"
      using a [of "fst x" "snd x"] x by simp_all
    have ny: "r_name (snd y) = fst y"
      and my: "map_of (pluginsByFile s) (filePath (snd y)) = Some (snd y)"
      using a [of "fst y" "snd y"] y by simp_all
    from mx my e have r: "snd x = snd y" by (metis option.inject)
    with nx ny have "fst x = fst y" by metis
    with r show "x = y" by (simp add: prod_eq_iff)
  qed
  with d have "distinct (map (\<lambda>x. filePath (snd x)) (plugins s))"
    by (simp add: distinct_map)
  then show ?thesis by (simp add: list_plugins_def comp_def)
qed

text \<open>
  Claim C8 as stated fails in its last clause: a record per path is not kept at any
  time. A forced scan loads \<open>ping.ts\<close>; the file is then replaced through an
  installation, which copies and loads it without looking at the source-path index.
  The manager then lists two records with the same path, and the next scan, which skips
  the indexed path, leaves both.
\<close>

theorem install_second_record_counterexample:
  "map fst (pluginsByFile forced_scan) = [js ''/p/user/ping.ts'']
   \<and> map filePath (list_plugins forced_scan) = [js ''/p/user/ping.ts'']
   \<and> fst (installUserPluginFromFile replaced_world (js ''/tmp/ping.ts'') forced_scan)
       = Returned (js ''/p/user/ping.ts'')
   \<and> map r_name (list_plugins reinstalled) = [js ''ping'', js ''pong'']
   \<and> map filePath (list_plugins reinstalled) = [js ''/p/user/ping.ts'', js ''/p/user/ping.ts'']
   \<and> \<not> distinct (map filePath (list_plugins reinstalled))
   \<and> fst (loadDir replaced_world (js ''/p/user'') user no_options reinstalled) = Returned ()
   \<and> map filePath (list_plugins (snd (loadDir replaced_world (js ''/p/user'') user no_options
          reinstalled))) = [js ''/p/user/ping.ts'', js ''/p/user/ping.ts'']"
  by (simp add: reinstalled_def forced_scan_def replaced_world_def installUserPluginFromFile_def
      loadDir_def isPluginFile_def endsWith_def list_plugins_def manager_defs)

text \<open>
  Claim C8, amended. In every scan of a directory, a path that was in the source-path
  index when the scan began still has the record it had when the scan ends (normally or
  with an error), and the scan issued no import for it. When the two indices agree
  before the scan they agree after it: no path is a key twice and no two records have
  the same path.
\<close>

theorem loadDir_skips_indexed_paths:
  "let s' = snd (loadDir w dir knd options s)
   in (\<forall>path r. map_of (pluginsByFile s) path = Some r \<longrightarrow>
          map_of (pluginsByFile s') path = Some r
          \<and> (\<forall>f. Import path f \<notin> set (drop (length (io_calls s)) (io_calls s'))))
    \<and> (indices_agree s \<longrightarrow>
          indices_agree s'
          \<and> distinct (map fst (pluginsByFile s'))
          \<and> distinct (map filePath (list_plugins s')))"
proof -
  define s' where "s' = snd (loadDir w dir knd options s)"
  have "(indices_agree s \<longrightarrow> indices_agree s')
       \<and> (\<forall>q r. map_of (pluginsByFile s) q = Some r \<longrightarrow> map_of (pluginsByFile s') q = Some r)
       \<and> (\<exists>new. io_calls s' = io_calls s @ new
              \<and> (\<forall>q f. Import q f \<in> set new \<longrightarrow> map_of (pluginsByFile s) q = None))"
  proof (cases "fs_access w dir")
    case False
    then show ?thesis by (simp add: s'_def loadDir_def)
  next
    case True
    show ?thesis
    proof (cases "fs_readdir w dir")
      case (Inl e)
      with True show ?thesis by (simp add: s'_def loadDir_def)
    next
      case (Inr entries)
      with True have "scan_entries w dir knd options entries s
          = (fst (loadDir w dir knd options s), s')"
        by (simp add: s'_def loadDir_def)
      from scan_entries_invariant [OF this] show ?thesis .
    qed
  qed
  then obtain new where a: "indices_agree s \<longrightarrow> indices_agree s'"
    and k: "\<forall>q r. map_of (pluginsByFile s) q = Some r \<longrightarrow> map_of (pluginsByFile s') q = Some r"
    and io: "io_calls s' = io_calls s @ new"
    and n: "\<forall>q f. Import q f \<in> set new \<longrightarrow> map_of (pluginsByFile s) q = None"
    by blast
  have "indices_agree s' \<longrightarrow> distinct (map fst (pluginsByFile s'))"
    unfolding indices_agree_def by blast
  moreover have "indices_agree s' \<longrightarrow> distinct (map filePath (list_plugins s'))"
    using indices_agree_paths_once by blast
  moreover have "\<forall>path r. map_of (pluginsByFile s) path = Some r \<longrightarrow>
                map_of (pluginsByFile s') path = Some r
                \<and> (\<forall>f. Import path f \<notin> set (drop (length (io_calls s)) (io_calls s')))"
    using k n by (auto simp: io)
  ultimately show ?thesis
    unfolding Let_def s'_def [symmetric] using a by blast
qed

text \<open>
  The amended C8 at the user directory, scanned a second time with the reload flag
  set: nothing is imported and both indices are what the first scan left.
\<close>

theorem loadDir_skips_indexed_paths_witness:
  "indices_agree scanned
   \<and> map fst (pluginsByFile scanned) = [js ''/p/user/ping.ts'', js ''/p/user/stubborn.ts'']
   \<and> distinct (map filePath (list_plugins (snd (loadDir example_world (js ''/p/user'') user
        \<lparr>forceReload = Some True\<rparr> scanned))))
   \<and> pluginsByFile (snd (loadDir example_world (js ''/p/user'') user
        \<lparr>forceReload = Some True\<rparr> scanned)) = pluginsByFile scanned
   \<and> io_calls (snd (loadDir example_world (js ''/p/user'') user
        \<lparr>forceReload = Some True\<rparr> scanned)) = io_calls scanned
   \<and> indices_agree (snd (loadDir example_world (js ''/p/user'') user
        \<lparr>forceReload = Some True\<rparr> scanned))"
proof -
  have s: "scanned = snd (loadFromFile example_world (js ''/p/user/stubborn.ts'') no_options user
      (snd (loadFromFile example_world (js ''/p/user/ping.ts'') no_options user empty_manager)))"
    by (simp add: loadDir_def isPluginFile_def endsWith_def scanned_def manager_defs)
  have a: "indices_agree scanned"
    unfolding s by (simp add: indices_agree_def manager_defs)
  have b: "map fst (pluginsByFile scanned) = [js ''/p/user/ping.ts'', js ''/p/user/stubborn.ts'']"
    unfolding s by (simp add: manager_defs)
  have c: "loadDir example_world (js ''/p/user'') user \<lparr>forceReload = Some True\<rparr> scanned
      = (Returned (), scanned)"
    unfolding s by (simp add: loadDir_def isPluginFile_def endsWith_def manager_defs)
  show ?thesis
    using loadDir_skips_indexed_paths [of example_world "js ''/p/user''" user
        "\<lparr>forceReload = Some True\<rparr>" scanned] a b
    by (simp add: Let_def c)
qed

subsection \<open>Installing a file\<close>

lemma endsWith_iff: "endsWith s p \<longleftrightarrow> (\<exists>stem. s = stem @ p)"
proof
  assume "endsWith s p"
  then have "s = take (length s - length p) s @ p"
    unfolding endsWith_def by (metis append_take_drop_id)
  then show "\<exists>stem. s = stem @ p" ..
next
  assume "\<exists>stem. s = stem @ p"
  then show "endsWith s p" unfolding endsWith_def by auto
qed

lemma isPluginFile_iff:
  "isPluginFile f \<longleftrightarrow>
     (\<exists>stem. f = stem @ js ''.ts'' \<or> f = stem @ js ''.js'' \<or> f = stem @ js ''.mjs'')
     \<and> \<not> (\<exists>stem. f = stem @ js ''.d.ts'')"
  unfolding isPluginFile_def endsWith_iff by auto

text \<open>
  Claim C9 as stated fails where the user directory cannot be created: \<open>mkdir\<close> is
  awaited before the file name is looked at, and its error is the one raised for a
  declaration file.
\<close>

theorem install_unwritable_counterexample:
  "path_basename unwritable_world (js ''/tmp/types.d.ts'') = js ''types.d.ts''
   \<and> \<not> isPluginFile (js ''types.d.ts'')
   \<and> fst (installUserPluginFromFile unwritable_world (js ''/tmp/types.d.ts'') empty_manager)
       = Threw (Foreign (js ''EEXIST''))"
  by (simp add: installUserPluginFromFile_def unwritable_world_def isPluginFile_def endsWith_def
      manager_defs)

text \<open>
  Claim C9, amended. Installing a file whose base name is not a plugin file name always
  fails, issues no call but the \<open>mkdir\<close> of the user directory (no copy, no import) and
  changes neither index nor the dispatcher. The error is the invalid-file error when
  the \<open>mkdir\<close> resolved, and the error of the \<open>mkdir\<close> when it rejected.
\<close>

theorem install_rejects_bad_extension:
  assumes "\<not> isPluginFile (path_basename w sourcePath)"
  shows "let res = installUserPluginFromFile w sourcePath s
         in (\<exists>e. fst res = Threw e)
          \<and> (fs_mkdir w (userPluginDir s) = None
               \<longrightarrow> fst res = Threw (InvalidPluginFile (path_basename w sourcePath)))
          \<and> (\<forall>msg. fs_mkdir w (userPluginDir s) = Some msg \<longrightarrow> fst res = Threw (Foreign msg))
          \<and> io_calls (snd res) = io_calls s @ [Mkdir (userPluginDir s)]
          \<and> plugins (snd res) = plugins s \<and> pluginsByFile (snd res) = pluginsByFile s
          \<and> list_plugins (snd res) = list_plugins s
          \<and> dispatcher (snd res) = dispatcher s"
  using assms
  by (cases "fs_mkdir w (userPluginDir s)")
    (simp_all add: installUserPluginFromFile_def Let_def list_plugins_def)

text \<open>
  The amended C9 at the declaration file \<open>/tmp/types.d.ts\<close>.
\<close>

theorem install_rejects_bad_extension_witness:
  "\<not> isPluginFile (path_basename example_world (js ''/tmp/types.d.ts''))
   \<and> fs_mkdir example_world (userPluginDir ping_loaded) = None
   \<and> fst (installUserPluginFromFile example_world (js ''/tmp/types.d.ts'') ping_loaded)
       = Threw (InvalidPluginFile (js ''types.d.ts''))
   \<and> io_calls (snd (installUserPluginFromFile example_world (js ''/tmp/types.d.ts'') ping_loaded))
       = io_calls ping_loaded @ [Mkdir (userPluginDir ping_loaded)]
   \<and> list_plugins (snd (installUserPluginFromFile example_world (js ''/tmp/types.d.ts'')
        ping_loaded)) = list_plugins ping_loaded"
proof -
  have b: "path_basename example_world (js ''/tmp/types.d.ts'') = js ''types.d.ts''"
    by (simp add: manager_defs)
  have a: "\<not> isPluginFile (path_basename example_world (js ''/tmp/types.d.ts''))"
    unfolding b by (simp add: isPluginFile_def endsWith_def js_def)
  have m: "fs_mkdir example_world (userPluginDir ping_loaded) = None"
    by (simp add: example_world_def)
  show ?thesis
    using install_rejects_bad_extension [OF a, of ping_loaded] a m
    by (simp add: Let_def b)
qed

subsection \<open>The hypotheses hold of the managers the operations build\<close>

lemma initial_manager_invariants:
  assumes "plugins s = []" and "pluginsByFile s = []" and "dispatcher s = []"
  shows "indices_agree s" and "fresh_objects s"
  using assms by (simp_all add: indices_agree_def fresh_objects_def)

lemma loadFromFile_fresh_objects:
  assumes "fresh_objects s"
  shows "fresh_objects (snd (loadFromFile w path options knd s))"
proof (cases "loadFromFile w path options knd s")
  case (Pair res s')
  show ?thesis
  proof (cases res)
    case (Threw e)
    from loadFromFile_Threw(3,4) [OF Pair [unfolded Threw]] assms
    show ?thesis by (auto simp: Pair fresh_objects_def)
  next
    case (Returned u)
    from loadFromFile_Returned [OF Pair [unfolded Returned]]
    obtain p ids s1 where r: "registerHandlers w p
             (s\<lparr>io_calls := io_calls s @ [Import path (forceReload options = Some True)]\<rparr>)
           = (ids, s1)"
      and d: "dispatcher s' = dispatcher s @ map handler ids"
      and n: "next_oid s' = next_oid s + length ids"
      by blast
    have o: "map (\<lambda>e. oid (handler e)) ids = [next_oid s ..< next_oid s + length ids]"
      using registerHandlers_fields(8) [OF r] by simp
    have "oid (handler e) < next_oid s + length ids" if "e \<in> set ids" for e
    proof -
      from that have "oid (handler e) \<in> set (map (\<lambda>e. oid (handler e)) ids)" by force
      then show ?thesis unfolding o by simp
    qed
    with assms show ?thesis
      by (auto simp: Pair fresh_objects_def d n)
  qed
qed

lemma unloadUser_indices_agree:
  assumes "indices_agree s"
  shows "indices_agree (snd (unloadUser n s))"
proof (cases "map_of (plugins s) n")
  case None
  then have "snd (unloadUser n s) = s" by (simp add: unloadUser_def)
  with assms show ?thesis by simp
next
  case (Some r)
  have ag: "\<And>k r'. (k, r') \<in> set (plugins s)
      \<Longrightarrow> r_name r' = k \<and> map_of (pluginsByFile s) (filePath r') = Some r'"
    using assms unfolding indices_agree_def by blast
  have af: "\<And>f r'. (f, r') \<in> set (pluginsByFile s)
      \<Longrightarrow> filePath r' = f \<and> map_of (plugins s) (r_name r') = Some r'"
    using assms unfolding indices_agree_def by blast
  have dp: "distinct (map fst (plugins s))" and df: "distinct (map fst (pluginsByFile s))"
    using assms unfolding indices_agree_def by blast+
  have "(n, r) \<in> set (plugins s)" using Some by (rule map_of_SomeD)
  from ag [OF this] have rn: "r_name r = n"
    and rf: "map_of (pluginsByFile s) (filePath r) = Some r" by blast+
  show ?thesis
  proof (cases "kind r \<noteq> user \<or> onUnload (inst r) \<noteq> None")
    case True
    then have "plugins (snd (unloadUser n s)) = plugins s
      \<and> pluginsByFile (snd (unloadUser n s)) = pluginsByFile s"
      using Some by (auto simp: unloadUser_def Let_def)
    then have "indices_agree (snd (unloadUser n s)) = indices_agree s"
      by (simp only: indices_agree_def)
    with assms show ?thesis by simp
  next
    case False
    then have "kind r = user" and "onUnload (inst r) = None" by blast+
    then have p: "plugins (snd (unloadUser n s)) = AList.delete n (plugins s)"
      and f: "pluginsByFile (snd (unloadUser n s)) = AList.delete (filePath r) (pluginsByFile s)"
      using Some rn by (simp_all add: unloadUser_def Let_def)
    have a: "r_name r' = k \<and> map_of (AList.delete (filePath r) (pluginsByFile s)) (filePath r') = Some r'"
      if "(k, r') \<in> set (AList.delete n (plugins s))" for k r'
    proof -
      from that have m: "(k, r') \<in> set (plugins s)" and kn: "k \<noteq> n"
        by (auto simp: AList.delete_eq)
      from ag [OF m] have nk: "r_name r' = k"
        and mk: "map_of (pluginsByFile s) (filePath r') = Some r'" by blast+
      have "filePath r' \<noteq> filePath r"
        using nk mk rf rn kn by (metis option.inject)
      then have "map_of (AList.delete (filePath r) (pluginsByFile s)) (filePath r')
          = map_of (pluginsByFile s) (filePath r')"
        by (rule map_of_delete)
      with nk mk show ?thesis by metis
    qed
    have b: "filePath r' = g \<and> map_of (AList.delete n (plugins s)) (r_name r') = Some r'"
      if "(g, r') \<in> set (AList.delete (filePath r) (pluginsByFile s))" for g r'
    proof -
      from that have m: "(g, r') \<in> set (pluginsByFile s)" and gn: "g \<noteq> filePath r"
        by (auto simp: AList.delete_eq)
      from af [OF m] have fg: "filePath r' = g"
        and mg: "map_of (plugins s) (r_name r') = Some r'" by blast+
      have "r_name r' \<noteq> n"
        using fg mg Some gn by (metis option.inject)
      then have "map_of (AList.delete n (plugins s)) (r_name r') = map_of (plugins s) (r_name r')"
        by (rule map_of_delete)
      with fg mg show ?thesis by metis
    qed
    have d: "distinct (map fst (AList.delete n (plugins s)))"
      "distinct (map fst (AList.delete (filePath r) (pluginsByFile s)))"
      using dp df by (simp_all add: distinct_delete)
    show ?thesis
      unfolding indices_agree_def p f
      using a b d by blast
  qed
qed

end
